theory Spec2Isabelle
  imports Main "HOL-Library.Word"
begin

section \<open>The API configuration cache of pkg/api/config/config.go\<close>

text \<open>
  The package keeps one process-wide \<open>config\<close> value: a map from application package
  names to \<open>*model.APIConfig\<close>, the time of the last load and a refresh period.
  \<open>loadConfig\<close> rebuilds the map from the database when it has expired,
  \<open>appConfig\<close> reads the map, and \<open>AppPkgConfig\<close> is the exported entry point.

  The embedding is sequential: one call runs at a time, so the \<open>sync.RWMutex\<close> field
  \<open>mu\<close> has no counterpart. Everything a call does besides changing the
  \<open>config\<close> value (a database read, a log line) is appended to a trace, and
  everything it receives from outside (clock readings, the database's answer, what the
  logger does on \<open>Fatalf\<close>) is an explicit argument.
\<close>

subsection \<open>Go's time package\<close>

text \<open>
  An instant is a number of nanoseconds counted from Go's zero \<open>time.Time\<close>
  (January 1, year 1, 00:00:00 UTC). A \<open>time.Duration\<close> is an \<open>int64\<close> count of
  nanoseconds, read with \<open>sint\<close>.
\<close>

type_synonym instant = int
type_synonym duration = "64 word"

definition zeroTime :: instant where
  "zeroTime = 0"

text \<open>The Unix epoch, 62135596800 seconds after the zero time.\<close>

definition unixEpoch :: instant where
  "unixEpoch = 62135596800 * 1000000000"

definition maxDuration :: duration where
  "maxDuration = 0x7FFFFFFFFFFFFFFF"

definition minDuration :: duration where
  "minDuration = 0x8000000000000000"

definition Minute :: duration where
  "Minute = 60 * 1000000000"

text \<open>
  \<open>t.Sub(u)\<close> is the duration \<open>t - u\<close>; when it does not fit a \<open>Duration\<close> the
  maximum (or minimum) duration is returned. \<open>time.Since(t)\<close> is
  \<open>time.Now().Sub(t)\<close>, with the clock reading as its first argument here.
\<close>

definition time_Sub :: "instant \<Rightarrow> instant \<Rightarrow> duration" where
  "time_Sub t u =
     (let d = t - u
      in if sint maxDuration < d then maxDuration
         else if d < sint minDuration then minDuration
         else word_of_int d)"

definition time_Since :: "instant \<Rightarrow> instant \<Rightarrow> duration" where
  "time_Since now t = time_Sub now t"

subsection \<open>Data\<close>

text \<open>Go's \<open>error\<close> interface: a value carries a message, \<open>nil\<close> is \<open>None\<close>.\<close>

datatype error = Err string

text \<open>
  Modelled from the spec: \<open>model.APIConfig\<close> is declared in \<open>cambio/pkg/model\<close>,
  which is not among the sources. The spec calls it an opaque record whose key attribute
  is the package identifier, a string; \<open>settings\<close> stands for whatever else it holds.
\<close>

record 'r APIConfig =
  AppPackageName :: string
  settings :: 'r

text \<open>A \<open>*model.APIConfig\<close>: \<open>None\<close> is the nil pointer.\<close>

type_synonym 'r ptr = "'r APIConfig option"

text \<open>The struct \<open>config\<close>, without its mutex.\<close>

record 'r config =
  lastLoadTime :: instant
  cache :: "string \<rightharpoonup> 'r ptr"
  refreshPeriod :: duration

text \<open>
  What a call leaves behind outside the \<open>config\<close> value: a call of
  \<open>database.ReadAPIConfigs\<close>, or a line handed to the logger at some level with its
  first argument (the message) and the remaining arguments.
\<close>

datatype level = InfoLevel | WarnLevel | ErrorLevel | FatalLevel

datatype arg = ADuration duration | AString string | AError error

datatype event = ReadAPIConfigs | Log level string "arg list"

record 'r state =
  globalConfig :: "'r config"
  trace :: "event list"

text \<open>
  What one call of \<open>loadConfig\<close> may receive from outside: the clock reading taken
  by \<open>time.Since\<close>, the pair returned by \<open>database.ReadAPIConfigs\<close>, the clock
  reading taken by \<open>time.Now\<close> after the read, and whether the logger's
  \<open>Fatalf\<close> ends the process. \<open>cambio/pkg/database\<close> and \<open>cambio/pkg/logging\<close>
  are not among the sources, so their answers are arguments.
\<close>

record 'r ctx =
  sinceClock :: instant
  readResult :: "'r ptr list \<times> error option"
  nowClock :: instant
  fatalExits :: bool

text \<open>
  How a call ends: it returns a value, the process exits (\<open>Fatalf\<close>), or it panics
  (a nil pointer is dereferenced).
\<close>

datatype 'a outcome = Return 'a | Exit | Panic

subsection \<open>newConfig\<close>

definition defaultRefreshPeriod :: duration where
  "defaultRefreshPeriod = Minute"

text \<open>\<open>os.Getenv\<close>: the value of the variable, empty when the variable is not set.\<close>

definition os_Getenv :: "(string \<rightharpoonup> string) \<Rightarrow> string \<Rightarrow> string" where
  "os_Getenv environ key = (case environ key of None \<Rightarrow> [] | Some v \<Rightarrow> v)"

text \<open>
  \<open>newConfig\<close> takes the process environment and \<open>time.ParseDuration\<close>, which
  returns a duration and an error. Its result is the initial state: the new
  \<open>config\<close> and the lines it logged.
\<close>

definition newConfig ::
  "(string \<rightharpoonup> string) \<Rightarrow> (string \<Rightarrow> duration \<times> error option) \<Rightarrow> 'r state" where
  "newConfig environ ParseDuration =
     (let cfg = \<lparr>lastLoadTime = zeroTime, cache = Map.empty,
                 refreshPeriod = defaultRefreshPeriod\<rparr>;
          tr = [];
          ds = os_Getenv environ ''CONFIG_REFRESH_DURATION'';
          (cfg, tr) =
            (if ds \<noteq> [] then
               (case ParseDuration ds of
                  (d, Some err) \<Rightarrow>
                    (cfg, tr @ [Log InfoLevel ''CONFIG_REFRESH_DURATION parse error: %v''
                                  [ADuration defaultRefreshPeriod]])
                | (d, None) \<Rightarrow> (cfg\<lparr>refreshPeriod := d\<rparr>, tr))
             else (cfg, tr));
          tr = (if sint (Minute * 5) < sint (refreshPeriod cfg)
                then tr @ [Log WarnLevel ''config refresh duration is > 5 minutes: %v''
                             [ADuration (refreshPeriod cfg)]]
                else tr)
      in \<lparr>globalConfig = cfg, trace = tr\<rparr>)"

subsection \<open>loadConfig\<close>

text \<open>
  The loop over \<open>configs\<close>, started on the freshly made map. Reading
  \<open>apiConfig.AppPackageName\<close> through a nil pointer panics; the map filled so far
  is then what is left in \<open>c.cache\<close> (\<open>Inl\<close>).
\<close>

fun rangeConfigs ::
  "'r ptr list \<Rightarrow> (string \<rightharpoonup> 'r ptr) \<Rightarrow> (string \<rightharpoonup> 'r ptr) + (string \<rightharpoonup> 'r ptr)" where
  "rangeConfigs [] m = Inr m"
| "rangeConfigs (None # configs) m = Inl m"
| "rangeConfigs (Some apiConfig # configs) m =
     rangeConfigs configs (m(AppPackageName apiConfig \<mapsto> Some apiConfig))"

definition loadConfig :: "'r ctx \<Rightarrow> 'r state \<Rightarrow> error option outcome \<times> 'r state" where
  "loadConfig ctx s =
     (let c = globalConfig s
      in if sint (time_Since (sinceClock ctx) (lastLoadTime c)) < sint (refreshPeriod c)
         then (Return None, s)
         else
           (let s = s\<lparr>trace := trace s @ [ReadAPIConfigs]\<rparr>
            in case readResult ctx of
                 (configs, Some err) \<Rightarrow>
                   (let s = s\<lparr>trace := trace s @
                                [Log FatalLevel ''error loading APIConfig: %v'' [AError err]]\<rparr>
                    in if fatalExits ctx then (Exit, s) else (Return (Some err), s))
               | (configs, None) \<Rightarrow>
                   (case rangeConfigs configs Map.empty of
                      Inl m \<Rightarrow> (Panic, s\<lparr>globalConfig := c\<lparr>cache := m\<rparr>\<rparr>)
                    | Inr m \<Rightarrow>
                        (Return None,
                         s\<lparr>globalConfig := c\<lparr>cache := m, lastLoadTime := nowClock ctx\<rparr>,
                           trace := trace s @
                             [Log InfoLevel ''loaded new APIConfig values'' []]\<rparr>))))"

subsection \<open>appConfig and AppPkgConfig\<close>

text \<open>
  A Go map read \<open>v, ok := m[k]\<close> gives the zero value, the nil pointer, and
  \<open>false\<close> for a missing key.
\<close>

definition appConfig :: "'r config \<Rightarrow> string \<Rightarrow> 'r ptr \<times> bool" where
  "appConfig c appPkg =
     (case cache c appPkg of None \<Rightarrow> (None, False) | Some p \<Rightarrow> (p, True))"

text \<open>
  \<open>AppPkgConfig\<close> drops what \<open>loadConfig\<close> returns. When \<open>loadConfig\<close> does
  not return, neither does \<open>AppPkgConfig\<close>.
\<close>

definition AppPkgConfig ::
  "'r ctx \<Rightarrow> string \<Rightarrow> 'r state \<Rightarrow> ('r ptr \<times> error option) outcome \<times> 'r state" where
  "AppPkgConfig ctx appPkg s =
     (case loadConfig ctx s of
        (Exit, s) \<Rightarrow> (Exit, s)
      | (Panic, s) \<Rightarrow> (Panic, s)
      | (Return _, s) \<Rightarrow>
          (let (appConfig, ok) = appConfig (globalConfig s) appPkg;
               s = (if \<not> ok
                    then s\<lparr>trace := trace s @
                           [Log ErrorLevel ''requested config for unconfigured app: %v''
                              [AString appPkg]]\<rparr>
                    else s)
           in (Return (appConfig, None), s)))"

subsection \<open>Vocabulary for the properties\<close>

text \<open>
  The package names carried by the records of a database read (a nil pointer carries
  none), the duration \<open>time.Since(c.lastLoadTime)\<close> that \<open>loadConfig\<close> compares
  with the refresh period, the value \<open>newConfig\<close> reads from the environment, and the
  three lines the package logs with an argument.
\<close>

fun names :: "'r ptr list \<Rightarrow> string set" where
  "names [] = {}"
| "names (None # configs) = names configs"
| "names (Some a # configs) = insert (AppPackageName a) (names configs)"

abbreviation elapsed :: "'r ctx \<Rightarrow> 'r state \<Rightarrow> duration" where
  "elapsed ctx s \<equiv> time_Since (sinceClock ctx) (lastLoadTime (globalConfig s))"

abbreviation override :: "(string \<rightharpoonup> string) \<Rightarrow> string" where
  "override environ \<equiv> os_Getenv environ ''CONFIG_REFRESH_DURATION''"

abbreviation unconfigured :: "string \<Rightarrow> event" where
  "unconfigured appPkg \<equiv>
     Log ErrorLevel ''requested config for unconfigured app: %v'' [AString appPkg]"

abbreviation fatalLine :: "error \<Rightarrow> event" where
  "fatalLine err \<equiv> Log FatalLevel ''error loading APIConfig: %v'' [AError err]"

abbreviation parseErrorLine :: event where
  "parseErrorLine \<equiv>
     Log InfoLevel ''CONFIG_REFRESH_DURATION parse error: %v'' [ADuration Minute]"

subsection \<open>Sample inputs\<close>

text \<open>
  The scenario of the specification: the database holds records for \<open>com.app.a\<close> and
  \<open>com.app.b\<close> (here \<open>com.app.a\<close> twice), and the cache was last loaded at the
  Unix epoch with a record that the database no longer has. Calls arrive 30 and 61
  seconds later, with the default refresh period of one minute; in two of them the
  database read fails. \<open>sampleParse\<close> stands for \<open>time.ParseDuration\<close> on the
  strings used below.
\<close>

definition recA :: "nat APIConfig" where
  "recA = \<lparr>AppPackageName = ''com.app.a'', settings = 1\<rparr>"

definition recA' :: "nat APIConfig" where
  "recA' = \<lparr>AppPackageName = ''com.app.a'', settings = 2\<rparr>"

definition recB :: "nat APIConfig" where
  "recB = \<lparr>AppPackageName = ''com.app.b'', settings = 3\<rparr>"

definition recOld :: "nat APIConfig" where
  "recOld = \<lparr>AppPackageName = ''com.app.old'', settings = 0\<rparr>"

definition oldState :: "nat state" where
  "oldState =
     \<lparr>globalConfig = \<lparr>lastLoadTime = unixEpoch, cache = [''com.app.old'' \<mapsto> Some recOld],
                       refreshPeriod = Minute\<rparr>,
      trace = []\<rparr>"

definition callAt61s :: "nat ctx" where
  "callAt61s = \<lparr>sinceClock = unixEpoch + 61000000000,
             readResult = ([Some recA, Some recB, Some recA'], None),
             nowClock = unixEpoch + 62000000000, fatalExits = True\<rparr>"

definition callAt30s :: "nat ctx" where
  "callAt30s = callAt61s\<lparr>sinceClock := unixEpoch + 30000000000\<rparr>"

definition callFails :: "nat ctx" where
  "callFails = callAt61s\<lparr>readResult := ([], Some (Err ''connection refused''))\<rparr>"

definition callFailsNoExit :: "nat ctx" where
  "callFailsNoExit = callFails\<lparr>fatalExits := False\<rparr>"

definition sampleParse :: "string \<Rightarrow> duration \<times> error option" where
  "sampleParse ds =
     (if ds = ''30s'' then (30000000000, None)
      else (0, Some (Err ''time: invalid duration'')))"

section \<open>Properties\<close>

subsection \<open>Durations\<close>

lemma sint_le_maxDuration: "sint (d :: duration) \<le> sint maxDuration"
  using sint_lt [of d] by (simp add: maxDuration_def)

lemma sint_word_of_int_duration:
  assumes "sint minDuration \<le> d" and "d \<le> sint maxDuration"
  shows "sint (word_of_int d :: duration) = d"
proof -
  from assms have "- (2 ^ 63) \<le> d" and "d < 2 ^ 63"
    by (simp_all add: minDuration_def maxDuration_def)
  then have "signed_take_bit 63 d = d"
    by (rule signed_take_bit_int_eq_self)
  then show ?thesis
    by (simp only: sint_sbintrunc') simp
qed

lemma sint_time_Sub:
  "sint (time_Sub t u) = max (sint minDuration) (min (sint maxDuration) (t - u))"
proof -
  have m: "sint minDuration \<le> sint maxDuration"
    by (simp add: minDuration_def maxDuration_def)
  show ?thesis
  proof (cases "sint maxDuration < t - u")
    case True
    with m show ?thesis by (simp add: time_Sub_def Let_def)
  next
    case False
    show ?thesis
    proof (cases "t - u < sint minDuration")
      case True
      with False m show ?thesis by (simp add: time_Sub_def Let_def)
    next
      case ge: False
      with False have "sint (word_of_int (t - u) :: duration) = t - u"
        by (intro sint_word_of_int_duration) simp_all
      with False ge show ?thesis by (simp add: time_Sub_def Let_def del: of_int_diff)
    qed
  qed
qed

lemma elapsed_less_iff:
  assumes "sint minDuration \<le> now - t"
  shows "sint (time_Since now t) < sint (p :: duration) \<longleftrightarrow> now - t < sint p"
  using assms sint_le_maxDuration [of p]
  by (auto simp: time_Since_def sint_time_Sub max_def min_def)

lemma time_Since_zeroTime:
  "unixEpoch \<le> now \<Longrightarrow> time_Since now zeroTime = maxDuration"
  by (simp add: time_Since_def time_Sub_def zeroTime_def unixEpoch_def maxDuration_def)

lemma Minute_not_above_5: "\<not> sint (Minute * 5) < sint Minute"
  by (simp add: Minute_def)

subsection \<open>The loop that fills the map\<close>

lemma names_append: "names (xs @ ys) = names xs \<union> names ys"
  by (induction xs rule: names.induct) auto

lemma names_iff: "k \<in> names configs \<longleftrightarrow> (\<exists>a. Some a \<in> set configs \<and> AppPackageName a = k)"
  by (induction configs rule: names.induct) auto

lemma rangeConfigs_total:
  "None \<notin> set configs \<Longrightarrow> \<exists>m'. rangeConfigs configs m = Inr m'"
  by (induction configs m rule: rangeConfigs.induct) auto

lemma rangeConfigs_Inl: "rangeConfigs configs m = Inl p \<Longrightarrow> None \<in> set configs"
  by (induction configs m rule: rangeConfigs.induct) auto

lemma rangeConfigs_dom:
  "rangeConfigs configs m = Inr m' \<Longrightarrow> dom m' = dom m \<union> names configs"
  by (induction configs m rule: rangeConfigs.induct) auto

lemma rangeConfigs_other:
  "rangeConfigs configs m = Inr m' \<Longrightarrow> k \<notin> names configs \<Longrightarrow> m' k = m k"
  by (induction configs m rule: rangeConfigs.induct) auto

lemma rangeConfigs_append:
  "rangeConfigs (xs @ ys) m =
     (case rangeConfigs xs m of Inl p \<Rightarrow> Inl p | Inr m1 \<Rightarrow> rangeConfigs ys m1)"
proof (induction xs arbitrary: m)
  case Nil
  show ?case by simp
next
  case (Cons x xs)
  show ?case
  proof (cases x)
    case None
    then show ?thesis by simp
  next
    case (Some a)
    have "rangeConfigs ((x # xs) @ ys) m =
            rangeConfigs (xs @ ys) (m(AppPackageName a \<mapsto> Some a))"
      using Some by simp
    also have "\<dots> = (case rangeConfigs xs (m(AppPackageName a \<mapsto> Some a)) of
                         Inl p \<Rightarrow> Inl p | Inr m1 \<Rightarrow> rangeConfigs ys m1)"
      by (rule Cons.IH)
    also have "\<dots> = (case rangeConfigs (x # xs) m of
                         Inl p \<Rightarrow> Inl p | Inr m1 \<Rightarrow> rangeConfigs ys m1)"
      using Some by simp
    finally show ?thesis .
  qed
qed

lemma rangeConfigs_last:
  assumes "rangeConfigs (pre @ Some a # post) m = Inr m'"
    and "AppPackageName a \<notin> names post"
  shows "m' (AppPackageName a) = Some (Some a)"
proof -
  from assms(1) obtain m1 where m1: "rangeConfigs pre m = Inr m1"
    and rest: "rangeConfigs post (m1(AppPackageName a \<mapsto> Some a)) = Inr m'"
    by (auto simp: rangeConfigs_append split: sum.splits)
  from rangeConfigs_other [OF rest assms(2)] show ?thesis by simp
qed

lemma rangeConfigs_mem:
  "rangeConfigs configs m = Inr m' \<Longrightarrow> k \<in> names configs \<Longrightarrow>
     \<exists>a. m' k = Some (Some a) \<and> Some a \<in> set configs \<and> AppPackageName a = k"
proof (induction configs m rule: rangeConfigs.induct)
  case (3 apiConfig configs m)
  show ?case
  proof (cases "k \<in> names configs")
    case True
    from "3.IH" [OF "3.prems"(1) [simplified] True] show ?thesis by auto
  next
    case False
    with 3 have "k = AppPackageName apiConfig" by simp
    moreover from 3(2) False have "m' k = (m(AppPackageName apiConfig \<mapsto> Some apiConfig)) k"
      by (simp add: rangeConfigs_other)
    ultimately show ?thesis by simp
  qed
qed simp_all

lemma rangeConfigs_nonnil:
  "rangeConfigs configs m = r \<Longrightarrow> None \<notin> ran m \<Longrightarrow>
     None \<notin> ran (case r of Inl p \<Rightarrow> p | Inr p \<Rightarrow> p)"
  by (induction configs m arbitrary: r rule: rangeConfigs.induct)
     (auto simp: ran_def split: if_splits)

subsection \<open>The paths through loadConfig\<close>

lemma loadConfig_fresh:
  "sint (elapsed ctx s) < sint (refreshPeriod (globalConfig s)) \<Longrightarrow>
     loadConfig ctx s = (Return None, s)"
  by (simp add: loadConfig_def)

lemma loadConfig_failed:
  "\<not> sint (elapsed ctx s) < sint (refreshPeriod (globalConfig s)) \<Longrightarrow>
   readResult ctx = (configs, Some err) \<Longrightarrow>
     loadConfig ctx s =
       (if fatalExits ctx then Exit else Return (Some err),
        s\<lparr>trace := trace s @
             [ReadAPIConfigs, Log FatalLevel ''error loading APIConfig: %v'' [AError err]]\<rparr>)"
  by (simp add: loadConfig_def)

lemma loadConfig_loaded:
  "\<not> sint (elapsed ctx s) < sint (refreshPeriod (globalConfig s)) \<Longrightarrow>
   readResult ctx = (configs, None) \<Longrightarrow> rangeConfigs configs Map.empty = Inr m \<Longrightarrow>
     loadConfig ctx s =
       (Return None,
        \<lparr>globalConfig = \<lparr>lastLoadTime = nowClock ctx, cache = m,
                          refreshPeriod = refreshPeriod (globalConfig s)\<rparr>,
         trace = trace s @ [ReadAPIConfigs, Log InfoLevel ''loaded new APIConfig values'' []]\<rparr>)"
  by (simp add: loadConfig_def)

lemma loadConfig_panicked:
  "\<not> sint (elapsed ctx s) < sint (refreshPeriod (globalConfig s)) \<Longrightarrow>
   readResult ctx = (configs, None) \<Longrightarrow> rangeConfigs configs Map.empty = Inl m \<Longrightarrow>
     loadConfig ctx s =
       (Panic, \<lparr>globalConfig = (globalConfig s)\<lparr>cache := m\<rparr>,
                trace = trace s @ [ReadAPIConfigs]\<rparr>)"
  by (simp add: loadConfig_def)

lemma loadConfig_outcomes:
  "(\<exists>e s1. loadConfig ctx s = (Return e, s1)) \<or>
   ((\<exists>s1. loadConfig ctx s = (Exit, s1)) \<and>
      \<not> sint (elapsed ctx s) < sint (refreshPeriod (globalConfig s)) \<and>
      fatalExits ctx \<and> (\<exists>configs err. readResult ctx = (configs, Some err))) \<or>
   ((\<exists>s1. loadConfig ctx s = (Panic, s1)) \<and>
      \<not> sint (elapsed ctx s) < sint (refreshPeriod (globalConfig s)) \<and>
      (\<exists>configs. readResult ctx = (configs, None) \<and> None \<in> set configs))"
proof (cases "sint (elapsed ctx s) < sint (refreshPeriod (globalConfig s))")
  case True
  from loadConfig_fresh [OF this] show ?thesis by simp
next
  case False
  obtain configs e where r: "readResult ctx = (configs, e)" by (cases "readResult ctx")
  show ?thesis
  proof (cases e)
    case (Some err)
    with r have "readResult ctx = (configs, Some err)" by simp
    from loadConfig_failed [OF False this] False this show ?thesis
      by (cases "fatalExits ctx") simp_all
  next
    case None
    with r have r': "readResult ctx = (configs, None)" by simp
    show ?thesis
    proof (cases "rangeConfigs configs Map.empty")
      case (Inl m)
      from loadConfig_panicked [OF False r' Inl] rangeConfigs_Inl [OF Inl] False r'
      show ?thesis by simp
    next
      case (Inr m)
      from loadConfig_loaded [OF False r' Inr] show ?thesis by simp
    qed
  qed
qed

lemma loadConfig_expired_reads:
  assumes "\<not> sint (elapsed ctx s) < sint (refreshPeriod (globalConfig s))"
  shows "\<exists>evs. trace (snd (loadConfig ctx s)) = trace s @ ReadAPIConfigs # evs"
proof -
  obtain configs e where r: "readResult ctx = (configs, e)" by (cases "readResult ctx")
  show ?thesis
  proof (cases e)
    case (Some err)
    with r have "readResult ctx = (configs, Some err)" by simp
    from loadConfig_failed [OF assms this] show ?thesis by simp
  next
    case None
    with r have r': "readResult ctx = (configs, None)" by simp
    show ?thesis
    proof (cases "rangeConfigs configs Map.empty")
      case (Inl m)
      from loadConfig_panicked [OF assms r' Inl] show ?thesis by simp
    next
      case (Inr m)
      from loadConfig_loaded [OF assms r' Inr] show ?thesis by simp
    qed
  qed
qed

lemma loadConfig_nonnil:
  assumes "None \<notin> ran (cache (globalConfig s))"
  shows "None \<notin> ran (cache (globalConfig (snd (loadConfig ctx s))))"
proof (cases "sint (elapsed ctx s) < sint (refreshPeriod (globalConfig s))")
  case True
  from loadConfig_fresh [OF this] assms show ?thesis by simp
next
  case False
  obtain configs e where r: "readResult ctx = (configs, e)" by (cases "readResult ctx")
  show ?thesis
  proof (cases e)
    case (Some err)
    with r have "readResult ctx = (configs, Some err)" by simp
    from loadConfig_failed [OF False this] assms show ?thesis by simp
  next
    case None
    with r have r': "readResult ctx = (configs, None)" by simp
    have e: "None \<notin> ran (Map.empty :: string \<rightharpoonup> 'a ptr)" by simp
    show ?thesis
    proof (cases "rangeConfigs configs Map.empty")
      case (Inl m)
      from rangeConfigs_nonnil [OF Inl e] loadConfig_panicked [OF False r' Inl]
      show ?thesis by simp
    next
      case (Inr m)
      from rangeConfigs_nonnil [OF Inr e] loadConfig_loaded [OF False r' Inr]
      show ?thesis by simp
    qed
  qed
qed

subsection \<open>The paths through appConfig and AppPkgConfig\<close>

lemma appConfig_absent: "cache c k = None \<Longrightarrow> appConfig c k = (None, False)"
  by (simp add: appConfig_def)

lemma appConfig_present: "cache c k = Some p \<Longrightarrow> appConfig c k = (p, True)"
  by (simp add: appConfig_def)

lemma AppPkgConfig_absent:
  "loadConfig ctx s = (Return e, s1) \<Longrightarrow> cache (globalConfig s1) k = None \<Longrightarrow>
     AppPkgConfig ctx k s = (Return (None, None), s1\<lparr>trace := trace s1 @ [unconfigured k]\<rparr>)"
  by (simp add: AppPkgConfig_def appConfig_def)

lemma AppPkgConfig_present:
  "loadConfig ctx s = (Return e, s1) \<Longrightarrow> cache (globalConfig s1) k = Some p \<Longrightarrow>
     AppPkgConfig ctx k s = (Return (p, None), s1)"
  by (simp add: AppPkgConfig_def appConfig_def)

lemma AppPkgConfig_Exit:
  "loadConfig ctx s = (Exit, s1) \<Longrightarrow> AppPkgConfig ctx k s = (Exit, s1)"
  by (simp add: AppPkgConfig_def)

lemma AppPkgConfig_Panic:
  "loadConfig ctx s = (Panic, s1) \<Longrightarrow> AppPkgConfig ctx k s = (Panic, s1)"
  by (simp add: AppPkgConfig_def)

subsection \<open>The paths through newConfig\<close>

lemma newConfig_parsed:
  "override environ \<noteq> [] \<Longrightarrow> parse (override environ) = (d, None) \<Longrightarrow>
     globalConfig (newConfig environ parse :: 'r state) =
       \<lparr>lastLoadTime = zeroTime, cache = Map.empty, refreshPeriod = d\<rparr>"
  by (simp add: newConfig_def Let_def)

lemma newConfig_unparsed:
  "override environ \<noteq> [] \<Longrightarrow> parse (override environ) = (d, Some err) \<Longrightarrow>
     (newConfig environ parse :: 'r state) =
       \<lparr>globalConfig = \<lparr>lastLoadTime = zeroTime, cache = Map.empty, refreshPeriod = Minute\<rparr>,
        trace = [parseErrorLine]\<rparr>"
  by (simp add: newConfig_def Let_def defaultRefreshPeriod_def Minute_not_above_5)

lemma newConfig_unset:
  "override environ = [] \<Longrightarrow>
     (newConfig environ parse :: 'r state) =
       \<lparr>globalConfig = \<lparr>lastLoadTime = zeroTime, cache = Map.empty, refreshPeriod = Minute\<rparr>,
        trace = []\<rparr>"
  by (simp add: newConfig_def Let_def defaultRefreshPeriod_def Minute_not_above_5)

lemma newConfig_initial:
  "lastLoadTime (globalConfig (newConfig environ parse :: 'r state)) = zeroTime \<and>
   cache (globalConfig (newConfig environ parse :: 'r state)) = Map.empty"
proof (cases "override environ = []")
  case True
  from newConfig_unset [OF True, where 'r = 'r] show ?thesis by simp
next
  case False
  obtain d e where p: "parse (override environ) = (d, e)" by (cases "parse (override environ)")
  show ?thesis
  proof (cases e)
    case None
    with p newConfig_parsed [of environ parse d, where 'r = 'r] False show ?thesis by simp
  next
    case (Some err)
    with p newConfig_unparsed [of environ parse d err, where 'r = 'r] False show ?thesis by simp
  qed
qed

subsection \<open>The sample calls\<close>

lemma callAt61s_expired:
  "\<not> sint (elapsed callAt61s oldState) < sint (refreshPeriod (globalConfig oldState))"
  by (simp add: callAt61s_def oldState_def time_Since_def time_Sub_def maxDuration_def
      minDuration_def Minute_def)

lemma callFails_expired:
  "\<not> sint (elapsed callFails oldState) < sint (refreshPeriod (globalConfig oldState))"
  using callAt61s_expired by (simp add: callFails_def)

lemma callFailsNoExit_expired:
  "\<not> sint (elapsed callFailsNoExit oldState) < sint (refreshPeriod (globalConfig oldState))"
  using callFails_expired by (simp add: callFailsNoExit_def)

lemma callAt30s_fresh:
  "sint (elapsed callAt30s oldState) < sint (refreshPeriod (globalConfig oldState))"
  by (simp add: callAt30s_def callAt61s_def oldState_def time_Since_def time_Sub_def
      maxDuration_def minDuration_def Minute_def)

section \<open>The specified behaviour\<close>

text \<open>
  C1. Take a call of \<open>loadConfig\<close> on an expired cache whose database read succeeds
  with a list of non-nil records. The call returns nil, and in the state it leaves:
  every package name of the list is found by \<open>appConfig\<close> (second component true)
  with a record of the list that carries this name, the record itself when no later record
  of the list has its name, and \<open>AppPkgConfig\<close> returns that record and logs
  nothing; every name that is not in the list, whatever the earlier cache held for it, is
  looked up as the nil pointer with found false, and \<open>AppPkgConfig\<close>, in the call
  that did the load as in any later call that finds the cache fresh, returns nil and
  appends exactly one line to the trace, at error level.
\<close>

theorem lookup_after_loadConfig:
  assumes "\<not> sint (elapsed ctx s) < sint (refreshPeriod (globalConfig s))"
    and "readResult ctx = (configs, None)"
    and "None \<notin> set configs"
  shows "\<exists>s'. loadConfig ctx s = (Return None, s') \<and>
     (\<forall>k \<in> names configs. \<exists>a. Some a \<in> set configs \<and> AppPackageName a = k \<and>
          appConfig (globalConfig s') k = (Some a, True) \<and>
          AppPkgConfig ctx k s = (Return (Some a, None), s')) \<and>
     (\<forall>pre a post. configs = pre @ Some a # post \<and> AppPackageName a \<notin> names post
          \<longrightarrow> appConfig (globalConfig s') (AppPackageName a) = (Some a, True)) \<and>
     (\<forall>k. k \<notin> names configs \<longrightarrow>
          appConfig (globalConfig s') k = (None, False) \<and>
          AppPkgConfig ctx k s =
            (Return (None, None), s'\<lparr>trace := trace s' @ [unconfigured k]\<rparr>) \<and>
          (\<forall>ctx'. sint (elapsed ctx' s') < sint (refreshPeriod (globalConfig s')) \<longrightarrow>
             AppPkgConfig ctx' k s' =
               (Return (None, None), s'\<lparr>trace := trace s' @ [unconfigured k]\<rparr>)))"
proof -
  from rangeConfigs_total [OF assms(3)] obtain m
    where m: "rangeConfigs configs Map.empty = Inr m" by blast
  define s' where "s' =
    \<lparr>globalConfig = \<lparr>lastLoadTime = nowClock ctx, cache = m,
                      refreshPeriod = refreshPeriod (globalConfig s)\<rparr>,
     trace = trace s @ [ReadAPIConfigs, Log InfoLevel ''loaded new APIConfig values'' []]\<rparr>"
  have load: "loadConfig ctx s = (Return None, s')"
    unfolding s'_def by (rule loadConfig_loaded [OF assms(1,2) m])
  have c: "cache (globalConfig s') = m"
    by (simp add: s'_def)
  have present: "\<forall>k \<in> names configs. \<exists>a. Some a \<in> set configs \<and> AppPackageName a = k \<and>
          appConfig (globalConfig s') k = (Some a, True) \<and>
          AppPkgConfig ctx k s = (Return (Some a, None), s')"
  proof
    fix k assume "k \<in> names configs"
    from rangeConfigs_mem [OF m this] obtain a
      where a: "m k = Some (Some a)" "Some a \<in> set configs" "AppPackageName a = k" by blast
    from a(1) c have k: "cache (globalConfig s') k = Some (Some a)" by simp
    from appConfig_present [OF k] AppPkgConfig_present [OF load k] a(2,3)
    show "\<exists>a. Some a \<in> set configs \<and> AppPackageName a = k \<and>
          appConfig (globalConfig s') k = (Some a, True) \<and>
          AppPkgConfig ctx k s = (Return (Some a, None), s')"
      by blast
  qed
  have last: "\<forall>pre a post. configs = pre @ Some a # post \<and> AppPackageName a \<notin> names post
          \<longrightarrow> appConfig (globalConfig s') (AppPackageName a) = (Some a, True)"
  proof (intro allI impI)
    fix pre a post
    assume h: "configs = pre @ Some a # post \<and> AppPackageName a \<notin> names post"
    with m have "rangeConfigs (pre @ Some a # post) Map.empty = Inr m" by simp
    from rangeConfigs_last [OF this] h c
    have "cache (globalConfig s') (AppPackageName a) = Some (Some a)" by simp
    then show "appConfig (globalConfig s') (AppPackageName a) = (Some a, True)"
      by (rule appConfig_present)
  qed
  have absent: "\<forall>k. k \<notin> names configs \<longrightarrow>
          appConfig (globalConfig s') k = (None, False) \<and>
          AppPkgConfig ctx k s =
            (Return (None, None), s'\<lparr>trace := trace s' @ [unconfigured k]\<rparr>) \<and>
          (\<forall>ctx'. sint (elapsed ctx' s') < sint (refreshPeriod (globalConfig s')) \<longrightarrow>
             AppPkgConfig ctx' k s' =
               (Return (None, None), s'\<lparr>trace := trace s' @ [unconfigured k]\<rparr>))"
  proof (intro allI impI)
    fix k assume "k \<notin> names configs"
    from rangeConfigs_other [OF m this] c
    have k: "cache (globalConfig s') k = None" by simp
    have "AppPkgConfig ctx' k s' =
               (Return (None, None), s'\<lparr>trace := trace s' @ [unconfigured k]\<rparr>)"
      if "sint (elapsed ctx' s') < sint (refreshPeriod (globalConfig s'))" for ctx'
      by (rule AppPkgConfig_absent [OF loadConfig_fresh [OF that] k])
    with appConfig_absent [OF k] AppPkgConfig_absent [OF load k]
    show "appConfig (globalConfig s') k = (None, False) \<and>
          AppPkgConfig ctx k s =
            (Return (None, None), s'\<lparr>trace := trace s' @ [unconfigured k]\<rparr>) \<and>
          (\<forall>ctx'. sint (elapsed ctx' s') < sint (refreshPeriod (globalConfig s')) \<longrightarrow>
             AppPkgConfig ctx' k s' =
               (Return (None, None), s'\<lparr>trace := trace s' @ [unconfigured k]\<rparr>))"
      by (intro conjI allI impI)
  qed
  from load present last absent show ?thesis
    by (intro exI conjI)
qed

theorem lookup_after_loadConfig_witness:
  "\<not> sint (elapsed callAt61s oldState) < sint (refreshPeriod (globalConfig oldState)) \<and>
   readResult callAt61s = ([Some recA, Some recB, Some recA'], None) \<and>
   None \<notin> set [Some recA, Some recB, Some recA'] \<and>
   (\<exists>s'. loadConfig callAt61s oldState = (Return None, s') \<and>
      appConfig (globalConfig s') ''com.app.a'' = (Some recA', True) \<and>
      appConfig (globalConfig s') ''com.app.b'' = (Some recB, True) \<and>
      appConfig (globalConfig s') ''com.app.old'' = (None, False) \<and>
      AppPkgConfig callAt61s ''com.app.c'' oldState =
        (Return (None, None), s'\<lparr>trace := trace s' @ [unconfigured ''com.app.c'']\<rparr>))"
proof -
  have r: "readResult callAt61s = ([Some recA, Some recB, Some recA'], None)"
    by (simp add: callAt61s_def)
  have n: "None \<notin> set [Some recA, Some recB, Some recA']"
    by simp
  from lookup_after_loadConfig [OF callAt61s_expired r n] obtain s'
    where load: "loadConfig callAt61s oldState = (Return None, s')"
      and l: "\<forall>pre a post. [Some recA, Some recB, Some recA'] = pre @ Some a # post \<and>
                AppPackageName a \<notin> names post
                \<longrightarrow> appConfig (globalConfig s') (AppPackageName a) = (Some a, True)"
      and ab: "\<forall>k. k \<notin> names [Some recA, Some recB, Some recA'] \<longrightarrow>
          appConfig (globalConfig s') k = (None, False) \<and>
          AppPkgConfig callAt61s k oldState =
            (Return (None, None), s'\<lparr>trace := trace s' @ [unconfigured k]\<rparr>) \<and>
          (\<forall>ctx'. sint (elapsed ctx' s') < sint (refreshPeriod (globalConfig s')) \<longrightarrow>
             AppPkgConfig ctx' k s' =
               (Return (None, None), s'\<lparr>trace := trace s' @ [unconfigured k]\<rparr>))"
    by (elim exE conjE)
  have "appConfig (globalConfig s') (AppPackageName recA') = (Some recA', True)"
    by (rule l [rule_format, of "[Some recA, Some recB]" recA' "[]"]) simp
  then have a: "appConfig (globalConfig s') ''com.app.a'' = (Some recA', True)"
    by (simp add: recA'_def)
  have "appConfig (globalConfig s') (AppPackageName recB) = (Some recB, True)"
    by (rule l [rule_format, of "[Some recA]" recB "[Some recA']"])
       (simp add: recB_def recA'_def)
  then have b: "appConfig (globalConfig s') ''com.app.b'' = (Some recB, True)"
    by (simp add: recB_def)
  have "''com.app.old'' \<notin> names [Some recA, Some recB, Some recA']"
    by (simp add: recA_def recB_def recA'_def)
  from ab [rule_format, OF this]
  have old: "appConfig (globalConfig s') ''com.app.old'' = (None, False)"
    by (elim conjE)
  have "''com.app.c'' \<notin> names [Some recA, Some recB, Some recA']"
    by (simp add: recA_def recB_def recA'_def)
  from ab [rule_format, OF this]
  have c: "AppPkgConfig callAt61s ''com.app.c'' oldState =
        (Return (None, None), s'\<lparr>trace := trace s' @ [unconfigured ''com.app.c'']\<rparr>)"
    by (elim conjE)
  from load a b old c have "\<exists>s'. loadConfig callAt61s oldState = (Return None, s') \<and>
      appConfig (globalConfig s') ''com.app.a'' = (Some recA', True) \<and>
      appConfig (globalConfig s') ''com.app.b'' = (Some recB, True) \<and>
      appConfig (globalConfig s') ''com.app.old'' = (None, False) \<and>
      AppPkgConfig callAt61s ''com.app.c'' oldState =
        (Return (None, None), s'\<lparr>trace := trace s' @ [unconfigured ''com.app.c'']\<rparr>)"
    by (intro exI conjI)
  with callAt61s_expired r n show ?thesis by (intro conjI)
qed

text \<open>
  C2. When the cache has expired and the database read succeeds with a list of non-nil
  records, \<open>loadConfig\<close> returns nil and installs a map built from the empty map
  by the loop over that list alone: its keys are exactly the package names of the list,
  a record that no later record of the list shares its name with is the one stored under
  its name, \<open>lastLoadTime\<close> becomes the reading of \<open>time.Now\<close>, and the
  refresh period stays.
\<close>

theorem loadConfig_builds_new_snapshot:
  assumes "\<not> sint (elapsed ctx s) < sint (refreshPeriod (globalConfig s))"
    and "readResult ctx = (configs, None)"
    and "None \<notin> set configs"
  shows "\<exists>m. rangeConfigs configs Map.empty = Inr m \<and>
           loadConfig ctx s =
             (Return None,
              \<lparr>globalConfig = \<lparr>lastLoadTime = nowClock ctx, cache = m,
                                refreshPeriod = refreshPeriod (globalConfig s)\<rparr>,
               trace = trace s @
                 [ReadAPIConfigs, Log InfoLevel ''loaded new APIConfig values'' []]\<rparr>) \<and>
           dom m = names configs \<and>
           (\<forall>pre a post. configs = pre @ Some a # post \<and> AppPackageName a \<notin> names post
              \<longrightarrow> m (AppPackageName a) = Some (Some a))"
proof -
  from rangeConfigs_total [OF assms(3)] obtain m
    where m: "rangeConfigs configs Map.empty = Inr m" by blast
  have d: "dom m = names configs"
    using rangeConfigs_dom [OF m] by simp
  have l: "\<forall>pre a post. configs = pre @ Some a # post \<and> AppPackageName a \<notin> names post
              \<longrightarrow> m (AppPackageName a) = Some (Some a)"
  proof (intro allI impI)
    fix pre a post
    assume h: "configs = pre @ Some a # post \<and> AppPackageName a \<notin> names post"
    with m have "rangeConfigs (pre @ Some a # post) Map.empty = Inr m" by simp
    from rangeConfigs_last [OF this] h show "m (AppPackageName a) = Some (Some a)" by simp
  qed
  from m loadConfig_loaded [OF assms(1,2) m] d l show ?thesis
    by (intro exI conjI)
qed

theorem loadConfig_builds_new_snapshot_witness:
  "\<not> sint (elapsed callAt61s oldState) < sint (refreshPeriod (globalConfig oldState)) \<and>
   readResult callAt61s = ([Some recA, Some recB, Some recA'], None) \<and>
   None \<notin> set [Some recA, Some recB, Some recA'] \<and>
   (\<exists>s'. loadConfig callAt61s oldState = (Return None, s') \<and>
      lastLoadTime (globalConfig s') = unixEpoch + 62000000000 \<and>
      dom (cache (globalConfig s')) = {''com.app.a'', ''com.app.b''} \<and>
      cache (globalConfig s') ''com.app.a'' = Some (Some recA') \<and>
      cache (globalConfig s') ''com.app.old'' = None)"
proof -
  have r: "readResult callAt61s = ([Some recA, Some recB, Some recA'], None)"
    by (simp add: callAt61s_def)
  have n: "None \<notin> set [Some recA, Some recB, Some recA']"
    by simp
  from loadConfig_builds_new_snapshot [OF callAt61s_expired r n] obtain m
    where m: "loadConfig callAt61s oldState =
             (Return None,
              \<lparr>globalConfig = \<lparr>lastLoadTime = nowClock callAt61s, cache = m,
                                refreshPeriod = refreshPeriod (globalConfig oldState)\<rparr>,
               trace = trace oldState @
                 [ReadAPIConfigs, Log InfoLevel ''loaded new APIConfig values'' []]\<rparr>)"
      and d: "dom m = names [Some recA, Some recB, Some recA']"
      and l: "\<forall>pre a post. [Some recA, Some recB, Some recA'] = pre @ Some a # post \<and>
                AppPackageName a \<notin> names post \<longrightarrow> m (AppPackageName a) = Some (Some a)"
    by (elim exE conjE)
  have "m (AppPackageName recA') = Some (Some recA')"
    by (rule l [rule_format, of "[Some recA, Some recB]" recA' "[]"]) simp
  then have a: "m ''com.app.a'' = Some (Some recA')"
    by (simp add: recA'_def)
  from d have d': "dom m = {''com.app.a'', ''com.app.b''}"
    by (simp add: recA_def recB_def recA'_def insert_commute)
  then have "''com.app.old'' \<notin> dom m" by simp
  then have o: "m ''com.app.old'' = None" by (simp add: domIff)
  have t: "nowClock callAt61s = unixEpoch + 62000000000" by (simp add: callAt61s_def)
  from m a d' o t have "\<exists>s'. loadConfig callAt61s oldState = (Return None, s') \<and>
      lastLoadTime (globalConfig s') = unixEpoch + 62000000000 \<and>
      dom (cache (globalConfig s')) = {''com.app.a'', ''com.app.b''} \<and>
      cache (globalConfig s') ''com.app.a'' = Some (Some recA') \<and>
      cache (globalConfig s') ''com.app.old'' = None"
    by simp
  with callAt61s_expired r n show ?thesis by (intro conjI)
qed

text \<open>
  C3. When \<open>time.Since(c.lastLoadTime)\<close> is strictly less than
  \<open>c.refreshPeriod\<close>, \<open>loadConfig\<close> returns nil and changes nothing: the cache
  and \<open>lastLoadTime\<close> are as before, and the trace gains no event, so the database
  is not read. (By \<open>elapsed_less_iff\<close> the comparison is that of the true difference
  of the two instants, unless the clock reads more than 292 years before the last load.)
\<close>

theorem loadConfig_fresh_is_noop:
  assumes "sint (elapsed ctx s) < sint (refreshPeriod (globalConfig s))"
  shows "loadConfig ctx s = (Return None, s)"
  using assms unfolding loadConfig_def by simp

theorem loadConfig_fresh_is_noop_witness:
  "sint (elapsed callAt30s oldState) < sint (refreshPeriod (globalConfig oldState)) \<and>
   loadConfig callAt30s oldState = (Return None, oldState)"
proof -
  have h: "sint (elapsed callAt30s oldState) < sint (refreshPeriod (globalConfig oldState))"
    by (simp add: callAt30s_def callAt61s_def oldState_def time_Since_def time_Sub_def
        maxDuration_def minDuration_def Minute_def)
  from h loadConfig_fresh_is_noop [OF h] show ?thesis by (intro conjI)
qed

text \<open>
  C4. For every context, package name and state, \<open>AppPkgConfig\<close> either returns
  with a nil error or does not return at all; no path returns a non-nil error. When it
  returns, \<open>loadConfig\<close> has returned and the result is the lookup in the map it
  left: for a name that is not in that map \<open>appConfig\<close> gives the nil pointer with
  found false, and \<open>AppPkgConfig\<close> returns the nil pointer with the nil error and
  appends the one error-level line; for a name that is in the map it returns the stored
  pointer with the nil error and appends nothing. It does not return only when the cache
  has expired and either the database read fails and \<open>Fatalf\<close> ends the process, or
  the read succeeds with a nil pointer in its list and the loop panics.
\<close>

theorem AppPkgConfig_error_is_nil:
  "(\<exists>e s1. loadConfig ctx s = (Return e, s1) \<and>
      (\<exists>p. fst (AppPkgConfig ctx k s) = Return (p, None)) \<and>
      (cache (globalConfig s1) k = None \<longrightarrow>
         appConfig (globalConfig s1) k = (None, False) \<and>
         AppPkgConfig ctx k s =
           (Return (None, None), s1\<lparr>trace := trace s1 @ [unconfigured k]\<rparr>)) \<and>
      (\<forall>p. cache (globalConfig s1) k = Some p \<longrightarrow>
         appConfig (globalConfig s1) k = (p, True) \<and>
         AppPkgConfig ctx k s = (Return (p, None), s1))) \<or>
   (fst (AppPkgConfig ctx k s) = Exit \<and>
      \<not> sint (elapsed ctx s) < sint (refreshPeriod (globalConfig s)) \<and>
      fatalExits ctx \<and> (\<exists>configs err. readResult ctx = (configs, Some err))) \<or>
   (fst (AppPkgConfig ctx k s) = Panic \<and>
      \<not> sint (elapsed ctx s) < sint (refreshPeriod (globalConfig s)) \<and>
      (\<exists>configs. readResult ctx = (configs, None) \<and> None \<in> set configs))"
proof -
  have ret: "(\<exists>p. fst (AppPkgConfig ctx k s) = Return (p, None)) \<and>
      (cache (globalConfig s1) k = None \<longrightarrow>
         appConfig (globalConfig s1) k = (None, False) \<and>
         AppPkgConfig ctx k s =
           (Return (None, None), s1\<lparr>trace := trace s1 @ [unconfigured k]\<rparr>)) \<and>
      (\<forall>p. cache (globalConfig s1) k = Some p \<longrightarrow>
         appConfig (globalConfig s1) k = (p, True) \<and>
         AppPkgConfig ctx k s = (Return (p, None), s1))"
    if load: "loadConfig ctx s = (Return e, s1)" for e s1
  proof (cases "cache (globalConfig s1) k")
    case None
    from AppPkgConfig_absent [OF load None] appConfig_absent [OF None] None
    show ?thesis by simp
  next
    case (Some p)
    from AppPkgConfig_present [OF load Some] appConfig_present [OF Some] Some
    show ?thesis by simp
  qed
  from loadConfig_outcomes [of ctx s] show ?thesis
  proof (elim disjE exE conjE)
    fix e s1 assume load: "loadConfig ctx s = (Return e, s1)"
    show ?thesis
      apply (rule disjI1)
      apply (rule exI [of _ e])
      apply (rule exI [of _ s1])
      using load ret [OF load] by simp
  next
    fix s1 configs err
    assume "loadConfig ctx s = (Exit, s1)"
      and "\<not> sint (elapsed ctx s) < sint (refreshPeriod (globalConfig s))"
      and "fatalExits ctx" and "readResult ctx = (configs, Some err)"
    with AppPkgConfig_Exit [OF this(1), of k] show ?thesis by simp
  next
    fix s1 configs
    assume "loadConfig ctx s = (Panic, s1)"
      and "\<not> sint (elapsed ctx s) < sint (refreshPeriod (globalConfig s))"
      and "readResult ctx = (configs, None)" and "None \<in> set configs"
    with AppPkgConfig_Panic [OF this(1), of k] show ?thesis by simp
  qed
qed

theorem AppPkgConfig_error_is_nil_witness:
  "(\<exists>s1. loadConfig callAt61s oldState = (Return None, s1) \<and>
      cache (globalConfig s1) ''com.app.c'' = None \<and>
      AppPkgConfig callAt61s ''com.app.c'' oldState =
        (Return (None, None), s1\<lparr>trace := trace s1 @ [unconfigured ''com.app.c'']\<rparr>) \<and>
      cache (globalConfig s1) ''com.app.a'' = Some (Some recA') \<and>
      AppPkgConfig callAt61s ''com.app.a'' oldState = (Return (Some recA', None), s1))"
proof -
  have r: "readResult callAt61s = ([Some recA, Some recB, Some recA'], None)"
    by (simp add: callAt61s_def)
  have m: "rangeConfigs [Some recA, Some recB, Some recA'] Map.empty =
      Inr [AppPackageName recA \<mapsto> Some recA, AppPackageName recB \<mapsto> Some recB,
           AppPackageName recA' \<mapsto> Some recA']"
    by simp
  define s1 where "s1 =
    \<lparr>globalConfig = \<lparr>lastLoadTime = nowClock callAt61s,
        cache = [AppPackageName recA \<mapsto> Some recA, AppPackageName recB \<mapsto> Some recB,
                 AppPackageName recA' \<mapsto> Some recA'],
        refreshPeriod = refreshPeriod (globalConfig oldState)\<rparr>,
      trace = trace oldState @
        [ReadAPIConfigs, Log InfoLevel ''loaded new APIConfig values'' []]\<rparr>"
  have load: "loadConfig callAt61s oldState = (Return None, s1)"
    unfolding s1_def by (rule loadConfig_loaded [OF callAt61s_expired r m])
  have c: "cache (globalConfig s1) ''com.app.c'' = None"
    and a: "cache (globalConfig s1) ''com.app.a'' = Some (Some recA')"
    by (simp_all add: s1_def recA_def recB_def recA'_def)
  from AppPkgConfig_error_is_nil [of callAt61s oldState "''com.app.c''"] load c r
  have 1: "AppPkgConfig callAt61s ''com.app.c'' oldState =
      (Return (None, None), s1\<lparr>trace := trace s1 @ [unconfigured ''com.app.c'']\<rparr>)"
    by auto
  from AppPkgConfig_error_is_nil [of callAt61s oldState "''com.app.a''"] load a r
  have 2: "AppPkgConfig callAt61s ''com.app.a'' oldState = (Return (Some recA', None), s1)"
    by auto
  from load c 1 a 2 show ?thesis by (intro exI conjI)
qed

text \<open>
  C5. When the cache has expired and the database read returns an error,
  \<open>loadConfig\<close> reads the database, hands one line to the logger at fatal level and
  leaves the \<open>config\<close> value as it was: no new map, the same
  \<open>lastLoadTime\<close>. When \<open>Fatalf\<close> ends the process, \<open>loadConfig\<close> and
  with it \<open>AppPkgConfig\<close> end in \<open>Exit\<close> for every package name: nothing is
  served from the old map.
\<close>

theorem loadConfig_read_error_is_fatal:
  assumes "\<not> sint (elapsed ctx s) < sint (refreshPeriod (globalConfig s))"
    and "readResult ctx = (configs, Some err)"
  shows "loadConfig ctx s =
           (if fatalExits ctx then Exit else Return (Some err),
            s\<lparr>trace := trace s @ [ReadAPIConfigs, fatalLine err]\<rparr>) \<and>
         globalConfig (snd (loadConfig ctx s)) = globalConfig s \<and>
         (fatalExits ctx \<longrightarrow>
            (\<forall>k. AppPkgConfig ctx k s =
                   (Exit, s\<lparr>trace := trace s @ [ReadAPIConfigs, fatalLine err]\<rparr>)))"
proof -
  note load = loadConfig_failed [OF assms]
  have "AppPkgConfig ctx k s = (Exit, s\<lparr>trace := trace s @ [ReadAPIConfigs, fatalLine err]\<rparr>)"
    if "fatalExits ctx" for k
    using load that by (simp add: AppPkgConfig_Exit)
  with load show ?thesis by simp
qed

theorem loadConfig_read_error_is_fatal_witness:
  "\<not> sint (elapsed callFails oldState) < sint (refreshPeriod (globalConfig oldState)) \<and>
   readResult callFails = ([], Some (Err ''connection refused'')) \<and>
   fatalExits callFails \<and>
   loadConfig callFails oldState =
     (Exit, oldState\<lparr>trace := [ReadAPIConfigs, fatalLine (Err ''connection refused'')]\<rparr>) \<and>
   AppPkgConfig callFails ''com.app.old'' oldState =
     (Exit, oldState\<lparr>trace := [ReadAPIConfigs, fatalLine (Err ''connection refused'')]\<rparr>)"
proof -
  have r: "readResult callFails = ([], Some (Err ''connection refused''))"
    by (simp add: callFails_def)
  have f: "fatalExits callFails"
    by (simp add: callFails_def callAt61s_def)
  have t: "trace oldState = []"
    by (simp add: oldState_def)
  from loadConfig_read_error_is_fatal [OF callFails_expired r] callFails_expired r f t
  show ?thesis by simp
qed

text \<open>
  C6. \<open>newConfig\<close> returns a state for every environment and every behaviour of
  \<open>time.ParseDuration\<close>; it has no failing path. When
  \<open>CONFIG_REFRESH_DURATION\<close> has a non-empty value that parses, the refresh period is
  the parsed duration. Otherwise it is one minute: when the value is non-empty and does
  not parse, the trace is the single informational line about the parse error; when the
  variable is unset or empty, which \<open>os.Getenv\<close> does not tell apart, nothing is
  logged.
\<close>

theorem newConfig_refreshPeriod:
  "(override environ \<noteq> [] \<and> snd (parse (override environ)) = None \<longrightarrow>
      refreshPeriod (globalConfig (newConfig environ parse :: 'r state)) =
        fst (parse (override environ))) \<and>
   (override environ = [] \<or> snd (parse (override environ)) \<noteq> None \<longrightarrow>
      refreshPeriod (globalConfig (newConfig environ parse :: 'r state)) = Minute) \<and>
   (override environ \<noteq> [] \<and> snd (parse (override environ)) \<noteq> None \<longrightarrow>
      trace (newConfig environ parse :: 'r state) = [parseErrorLine]) \<and>
   (override environ = [] \<longrightarrow> trace (newConfig environ parse :: 'r state) = [])"
proof (cases "override environ = []")
  case True
  from newConfig_unset [OF True, where 'r = 'r] True show ?thesis by simp
next
  case False
  obtain d e where p: "parse (override environ) = (d, e)" by (cases "parse (override environ)")
  show ?thesis
  proof (cases e)
    case None
    with p have "parse (override environ) = (d, None)" by simp
    from newConfig_parsed [of environ parse d, where 'r = 'r] False this show ?thesis by simp
  next
    case (Some err)
    with p have "parse (override environ) = (d, Some err)" by simp
    from newConfig_unparsed [of environ parse d err, where 'r = 'r] False this show ?thesis by simp
  qed
qed

theorem newConfig_refreshPeriod_witness:
  "refreshPeriod (globalConfig
     (newConfig [''CONFIG_REFRESH_DURATION'' \<mapsto> ''30s''] sampleParse :: nat state)) = 30000000000 \<and>
   refreshPeriod (globalConfig
     (newConfig [''CONFIG_REFRESH_DURATION'' \<mapsto> ''notaduration''] sampleParse :: nat state)) = Minute \<and>
   trace (newConfig [''CONFIG_REFRESH_DURATION'' \<mapsto> ''notaduration''] sampleParse :: nat state) =
     [parseErrorLine] \<and>
   refreshPeriod (globalConfig (newConfig Map.empty sampleParse :: nat state)) = Minute \<and>
   trace (newConfig Map.empty sampleParse :: nat state) = []"
proof -
  have a: "override [''CONFIG_REFRESH_DURATION'' \<mapsto> ''30s''] = ''30s''"
    and b: "override [''CONFIG_REFRESH_DURATION'' \<mapsto> ''notaduration''] = ''notaduration''"
    and c: "override Map.empty = []"
    by (simp_all add: os_Getenv_def)
  have pa: "sampleParse ''30s'' = (30000000000, None)"
    and pb: "sampleParse ''notaduration'' = (0, Some (Err ''time: invalid duration''))"
    by (simp_all add: sampleParse_def)
  from newConfig_refreshPeriod [of "[''CONFIG_REFRESH_DURATION'' \<mapsto> ''30s'']" sampleParse, where 'r = nat]
  have 1: "refreshPeriod (globalConfig
     (newConfig [''CONFIG_REFRESH_DURATION'' \<mapsto> ''30s''] sampleParse :: nat state)) = 30000000000"
    by (simp add: a pa)
  from newConfig_refreshPeriod [of "[''CONFIG_REFRESH_DURATION'' \<mapsto> ''notaduration'']" sampleParse, where 'r = nat]
  have 2: "refreshPeriod (globalConfig
     (newConfig [''CONFIG_REFRESH_DURATION'' \<mapsto> ''notaduration''] sampleParse :: nat state)) = Minute \<and>
   trace (newConfig [''CONFIG_REFRESH_DURATION'' \<mapsto> ''notaduration''] sampleParse :: nat state) =
     [parseErrorLine]"
    by (simp add: b pb)
  from newConfig_refreshPeriod [of Map.empty sampleParse, where 'r = nat]
  have 3: "refreshPeriod (globalConfig (newConfig Map.empty sampleParse :: nat state)) = Minute \<and>
   trace (newConfig Map.empty sampleParse :: nat state) = []"
    by (simp add: c)
  from 1 2 3 show ?thesis by (intro conjI) simp_all
qed

text \<open>
  C7. The state made by \<open>newConfig\<close> has the empty map and the zero
  \<open>lastLoadTime\<close>. Whatever refresh period the environment and the parser gave it,
  a first \<open>loadConfig\<close> whose clock reads the Unix epoch or later finds
  \<open>time.Since\<close> of the zero time saturated at the maximum duration, which is not
  less than any refresh period: the cache counts as expired and the first event the call
  appends is the database read.
\<close>

theorem first_loadConfig_reads:
  assumes "unixEpoch \<le> sinceClock ctx"
  shows "cache (globalConfig (newConfig environ parse :: 'r state)) = Map.empty \<and>
         lastLoadTime (globalConfig (newConfig environ parse :: 'r state)) = zeroTime \<and>
         \<not> sint (elapsed ctx (newConfig environ parse :: 'r state))
              < sint (refreshPeriod (globalConfig (newConfig environ parse :: 'r state))) \<and>
         (\<exists>evs. trace (snd (loadConfig ctx (newConfig environ parse :: 'r state))) =
                  trace (newConfig environ parse :: 'r state) @ ReadAPIConfigs # evs)"
proof -
  let ?s = "newConfig environ parse :: 'r state"
  note init = newConfig_initial [of environ parse, where 'r = 'r]
  from init time_Since_zeroTime [OF assms]
  have "elapsed ctx ?s = maxDuration" by simp
  with sint_le_maxDuration [of "refreshPeriod (globalConfig ?s)"]
  have exp: "\<not> sint (elapsed ctx ?s) < sint (refreshPeriod (globalConfig ?s))" by simp
  from init exp loadConfig_expired_reads [OF exp] show ?thesis by (intro conjI) simp_all
qed

theorem first_loadConfig_reads_witness:
  "unixEpoch \<le> sinceClock callAt61s \<and>
   cache (globalConfig
     (newConfig [''CONFIG_REFRESH_DURATION'' \<mapsto> ''30s''] sampleParse :: nat state)) = Map.empty \<and>
   (\<exists>evs. trace (snd (loadConfig callAt61s
       (newConfig [''CONFIG_REFRESH_DURATION'' \<mapsto> ''30s''] sampleParse))) =
     ReadAPIConfigs # evs)"
proof -
  have h: "unixEpoch \<le> sinceClock callAt61s"
    by (simp add: callAt61s_def)
  have o: "override [''CONFIG_REFRESH_DURATION'' \<mapsto> ''30s''] \<noteq> []"
    by (simp add: os_Getenv_def)
  have p: "sampleParse (override [''CONFIG_REFRESH_DURATION'' \<mapsto> ''30s'']) =
      (30000000000, None)"
    by (simp add: os_Getenv_def sampleParse_def)
  have t: "trace (newConfig [''CONFIG_REFRESH_DURATION'' \<mapsto> ''30s''] sampleParse :: nat state) = []"
    using o p by (simp add: newConfig_def Let_def Minute_def)
  from first_loadConfig_reads [OF h, of "[''CONFIG_REFRESH_DURATION'' \<mapsto> ''30s'']" sampleParse]
    h t
  show ?thesis by simp
qed

text \<open>
  C9. When \<open>loadConfig\<close> returns a non-nil error (the read failed and
  \<open>Fatalf\<close> came back), the \<open>config\<close> value is unchanged and
  \<open>AppPkgConfig\<close> goes on: it looks the name up in that unchanged map, returns what
  it finds together with a nil error, and logs the error-level line when nothing is found.
\<close>

theorem AppPkgConfig_discards_loadConfig_error:
  assumes "loadConfig ctx s = (Return (Some err), s1)"
  shows "globalConfig s1 = globalConfig s \<and>
         AppPkgConfig ctx k s =
           (Return (fst (appConfig (globalConfig s) k), None),
            if snd (appConfig (globalConfig s) k) then s1
            else s1\<lparr>trace := trace s1 @ [unconfigured k]\<rparr>)"
proof -
  from assms have g: "globalConfig s1 = globalConfig s"
    by (auto simp: loadConfig_def Let_def split: if_splits prod.splits option.splits sum.splits)
  show ?thesis
  proof (cases "cache (globalConfig s) k")
    case None
    with g have "cache (globalConfig s1) k = None" by simp
    from AppPkgConfig_absent [OF assms this] appConfig_absent [OF None] g
    show ?thesis by simp
  next
    case (Some p)
    with g have "cache (globalConfig s1) k = Some p" by simp
    from AppPkgConfig_present [OF assms this] appConfig_present [OF Some] g
    show ?thesis by simp
  qed
qed

theorem AppPkgConfig_discards_loadConfig_error_witness:
  "(\<exists>s1. loadConfig callFailsNoExit oldState = (Return (Some (Err ''connection refused'')), s1) \<and>
      globalConfig s1 = globalConfig oldState \<and>
      AppPkgConfig callFailsNoExit ''com.app.old'' oldState = (Return (Some recOld, None), s1) \<and>
      AppPkgConfig callFailsNoExit ''com.app.a'' oldState =
        (Return (None, None), s1\<lparr>trace := trace s1 @ [unconfigured ''com.app.a'']\<rparr>))"
proof -
  have r: "readResult callFailsNoExit = ([], Some (Err ''connection refused''))"
    by (simp add: callFailsNoExit_def callFails_def)
  have f: "\<not> fatalExits callFailsNoExit"
    by (simp add: callFailsNoExit_def)
  define s1 where "s1 = oldState\<lparr>trace := trace oldState @
     [ReadAPIConfigs, fatalLine (Err ''connection refused'')]\<rparr>"
  from loadConfig_failed [OF callFailsNoExit_expired r] f
  have load: "loadConfig callFailsNoExit oldState = (Return (Some (Err ''connection refused'')), s1)"
    by (simp add: s1_def)
  have old: "appConfig (globalConfig oldState) ''com.app.old'' = (Some recOld, True)"
    by (simp add: appConfig_def oldState_def)
  have a: "appConfig (globalConfig oldState) ''com.app.a'' = (None, False)"
    by (simp add: appConfig_def oldState_def)
  from AppPkgConfig_discards_loadConfig_error [OF load, of "''com.app.old''"]
    AppPkgConfig_discards_loadConfig_error [OF load, of "''com.app.a''"] old a load
  show ?thesis by simp
qed

text \<open>
  C10. When \<open>loadConfig\<close> has returned and the package name is not in the map,
  \<open>AppPkgConfig\<close> returns the pair of the nil pointer and the nil error; the pair
  has no other component. In a state whose map stores no nil pointer, as every state
  reached from \<open>newConfig\<close> is, a name that is in the map gives a non-nil pointer, so
  the nil pointer is returned exactly for the names not found.
\<close>

theorem AppPkgConfig_absent_is_nil_record:
  assumes "loadConfig ctx s = (Return e, s1)"
  shows "(cache (globalConfig s1) k = None \<longrightarrow>
            AppPkgConfig ctx k s =
              (Return (None, None), s1\<lparr>trace := trace s1 @ [unconfigured k]\<rparr>)) \<and>
         (None \<notin> ran (cache (globalConfig s)) \<longrightarrow>
            (\<forall>a. cache (globalConfig s1) k = Some a \<longrightarrow>
               a \<noteq> None \<and> AppPkgConfig ctx k s = (Return (a, None), s1)))"
proof (intro conjI impI allI)
  assume "cache (globalConfig s1) k = None"
  from AppPkgConfig_absent [OF assms this]
  show "AppPkgConfig ctx k s =
          (Return (None, None), s1\<lparr>trace := trace s1 @ [unconfigured k]\<rparr>)" .
next
  fix a
  assume inv: "None \<notin> ran (cache (globalConfig s))"
    and a: "cache (globalConfig s1) k = Some a"
  from loadConfig_nonnil [OF inv, of ctx] assms
  have n: "None \<notin> ran (cache (globalConfig s1))" by simp
  show "a \<noteq> None"
  proof
    assume "a = None"
    with a have "cache (globalConfig s1) k = Some None" by simp
    then have "None \<in> ran (cache (globalConfig s1))" by (rule ranI)
    with n show False by simp
  qed
  from AppPkgConfig_present [OF assms a]
  show "AppPkgConfig ctx k s = (Return (a, None), s1)" .
qed

theorem AppPkgConfig_absent_is_nil_record_witness:
  "\<exists>s1. loadConfig callAt30s oldState = (Return None, s1) \<and>
      cache (globalConfig s1) ''com.app.c'' = None \<and>
      AppPkgConfig callAt30s ''com.app.c'' oldState =
        (Return (None, None), s1\<lparr>trace := trace s1 @ [unconfigured ''com.app.c'']\<rparr>) \<and>
      None \<notin> ran (cache (globalConfig oldState)) \<and>
      cache (globalConfig s1) ''com.app.old'' = Some (Some recOld) \<and>
      AppPkgConfig callAt30s ''com.app.old'' oldState = (Return (Some recOld, None), s1)"
proof -
  have h: "sint (elapsed callAt30s oldState) < sint (refreshPeriod (globalConfig oldState))"
    by (simp add: callAt30s_def callAt61s_def oldState_def time_Since_def time_Sub_def
        maxDuration_def minDuration_def Minute_def)
  note load = loadConfig_fresh [OF h]
  have c: "cache (globalConfig oldState) ''com.app.c'' = None"
    by (simp add: oldState_def)
  have old: "cache (globalConfig oldState) ''com.app.old'' = Some (Some recOld)"
    by (simp add: oldState_def)
  have inv: "None \<notin> ran (cache (globalConfig oldState))"
    by (simp add: oldState_def)
  from AppPkgConfig_absent_is_nil_record [OF load, of "''com.app.c''"]
    AppPkgConfig_absent_is_nil_record [OF load, of "''com.app.old''"] load c old inv
  show ?thesis by simp
qed

end
